theory Spec2Isabelle
  imports Complex_Main
begin

section \<open>The fixed tables of \<^verbatim>\<open>musicUtils.ts\<close>\<close>

text \<open>
  Note names, scale names and chord symbols are \<^typ>\<open>string\<close>s: every string the module
  builds consists of ASCII characters. A pressed key is the UTF-16 code unit of a
  one-character key string (what \<^verbatim>\<open>charCodeAt(0)\<close> returns for it), a natural
  number below 65536. Durations, velocities, clock readings and random draws are JavaScript
  numbers used only in comparisons, one difference and one product; they are real numbers
  here.
\<close>

definition SCALES :: "(string \<times> string list) list" where
  "SCALES =
    [(''major'', [''C'', ''D'', ''E'', ''F'', ''G'', ''A'', ''B'']),
     (''minor'', [''C'', ''D'', ''Eb'', ''F'', ''G'', ''Ab'', ''Bb'']),
     (''pentatonic'', [''C'', ''D'', ''E'', ''G'', ''A'']),
     (''blues'', [''C'', ''Eb'', ''F'', ''F#'', ''G'', ''Bb'']),
     (''chromatic'',
        [''C'', ''C#'', ''D'', ''D#'', ''E'', ''F'', ''F#'', ''G'', ''G#'', ''A'', ''A#'', ''B''])]"

datatype key_group = letters | numbers | special

record octave_range =
  range_min :: nat
  range_max :: nat

fun OCTAVE_RANGES :: "key_group \<Rightarrow> octave_range" where
  "OCTAVE_RANGES letters = \<lparr>range_min = 3, range_max = 5\<rparr>"
| "OCTAVE_RANGES numbers = \<lparr>range_min = 2, range_max = 4\<rparr>"
| "OCTAVE_RANGES special = \<lparr>range_min = 1, range_max = 3\<rparr>"

definition CHORD_PROGRESSIONS :: "string list list" where
  "CHORD_PROGRESSIONS =
    [[''C'', ''G'', ''Am'', ''F''],
     [''Am'', ''F'', ''C'', ''G''],
     [''C'', ''Am'', ''F'', ''G''],
     [''C'', ''F'', ''G''],
     [''Cm'', ''G'', ''Cm'']]"

section \<open>JavaScript values the module computes with\<close>

text \<open>
  \<^verbatim>\<open>SCALES[name]\<close> is a property read on an object literal. It finds the five own
  properties and, through the prototype chain, the properties of \<^verbatim>\<open>Object.prototype\<close>:
  eleven functions and the \<^verbatim>\<open>__proto__\<close> accessor, whose value is an object. None of
  these is an array; what the module reads of them is their \<^verbatim>\<open>length\<close> (the declared
  number of parameters of a function, nothing for the object). Any other name reads
  \<^verbatim>\<open>undefined\<close>.
\<close>

datatype scale_value = Arr "string list" | NonArray "nat option"

definition Object_prototype :: "(string \<times> scale_value) list" where
  "Object_prototype =
    [(''constructor'', NonArray (Some 1)),
     (''__defineGetter__'', NonArray (Some 2)),
     (''__defineSetter__'', NonArray (Some 2)),
     (''hasOwnProperty'', NonArray (Some 1)),
     (''__lookupGetter__'', NonArray (Some 1)),
     (''__lookupSetter__'', NonArray (Some 1)),
     (''isPrototypeOf'', NonArray (Some 1)),
     (''propertyIsEnumerable'', NonArray (Some 1)),
     (''toString'', NonArray (Some 0)),
     (''valueOf'', NonArray (Some 0)),
     (''toLocaleString'', NonArray (Some 0)),
     (''__proto__'', NonArray None)]"

definition SCALES_get :: "string \<Rightarrow> scale_value option" where
  "SCALES_get name =
    (case map_of SCALES name of
       Some xs \<Rightarrow> Some (Arr xs)
     | None \<Rightarrow> map_of Object_prototype name)"

text \<open>
  The numbers of the octave arithmetic: a natural number, \<^verbatim>\<open>Infinity\<close> (a positive
  number divided by a zero length) or \<^verbatim>\<open>NaN\<close> (a remainder by zero, arithmetic on
  \<^verbatim>\<open>undefined\<close>, \<^verbatim>\<open>parseInt\<close> of a non-digit).
\<close>

datatype num = Fin nat | PosInf | NaN

fun scale_length :: "scale_value \<Rightarrow> nat option" where
  "scale_length (Arr xs) = Some (length xs)"
| "scale_length (NonArray l) = l"

text \<open>\<^verbatim>\<open>a % len\<close> and \<^verbatim>\<open>Math.floor(a / len)\<close> for a natural number \<open>a\<close>.\<close>

fun js_rem :: "nat \<Rightarrow> nat option \<Rightarrow> num" where
  "js_rem a None = NaN"
| "js_rem a (Some n) = (if n = 0 then NaN else Fin (a mod n))"

fun js_floor_div :: "nat \<Rightarrow> nat option \<Rightarrow> num" where
  "js_floor_div a None = NaN"
| "js_floor_div a (Some n) =
     (if n = 0 then (if a = 0 then NaN else PosInf) else Fin (a div n))"

fun js_plus :: "nat \<Rightarrow> num \<Rightarrow> num" where
  "js_plus m (Fin x) = Fin (m + x)"
| "js_plus m PosInf = PosInf"
| "js_plus m NaN = NaN"

text \<open>\<^verbatim>\<open>if (octave > max) octave = max\<close>: a comparison with \<^verbatim>\<open>NaN\<close> is false.\<close>

fun clamp_max :: "nat \<Rightarrow> num \<Rightarrow> num" where
  "clamp_max m (Fin x) = Fin (if x > m then m else x)"
| "clamp_max m PosInf = Fin m"
| "clamp_max m NaN = NaN"

text \<open>\<^verbatim>\<open>scale[i]\<close> inside a template literal: an entry of the array, or \<^verbatim>\<open>undefined\<close>.\<close>

fun scale_at :: "scale_value \<Rightarrow> num \<Rightarrow> string" where
  "scale_at (Arr xs) (Fin i) = (if i < length xs then xs ! i else ''undefined'')"
| "scale_at _ _ = ''undefined''"

definition digit_char :: "nat \<Rightarrow> char" where
  "digit_char d = char_of (48 + d)"

fun toString_nat :: "nat \<Rightarrow> string" where
  "toString_nat n =
     (if n < 10 then [digit_char n] else toString_nat (n div 10) @ [digit_char (n mod 10)])"

declare toString_nat.simps [simp del]

fun toString :: "num \<Rightarrow> string" where
  "toString (Fin n) = toString_nat n"
| "toString PosInf = ''Infinity''"
| "toString NaN = ''NaN''"

text \<open>\<^verbatim>\<open>parseInt\<close> of a one-character string.\<close>

definition parseInt_char :: "char \<Rightarrow> num" where
  "parseInt_char c =
     (if 48 \<le> (of_char c :: nat) \<and> (of_char c :: nat) \<le> 57 then Fin (of_char c - 48) else NaN)"

text \<open>\<^verbatim>\<open>Array.prototype.indexOf\<close>, with \<open>None\<close> for \<open>-1\<close>.\<close>

fun indexOf :: "'a list \<Rightarrow> 'a \<Rightarrow> nat option" where
  "indexOf [] x = None"
| "indexOf (y # ys) x = (if x = y then Some 0 else map_option Suc (indexOf ys x))"

section \<open>The module state\<close>

text \<open>
  The three engine objects are present or absent (\<^verbatim>\<open>null\<close>). Of the synth the model
  keeps the gain its volume was last set from, of each effect its wet level.
\<close>

record queued =
  note_of :: string
  time_of :: real

record state =
  synth :: "real option"
  reverb :: "real option"
  delay :: "real option"
  currentScale :: string
  currentOctave :: nat
  currentProgression :: nat
  progressionIndex :: nat
  lastNotesPlayed :: "string list"
  notesInQueue :: "queued list"

definition initial :: state where
  "initial =
    \<lparr>synth = None, reverb = None, delay = None,
     currentScale = ''pentatonic'', currentOctave = 4,
     currentProgression = 0, progressionIndex = 0,
     lastNotesPlayed = [], notesInQueue = []\<rparr>"

datatype error = TypeError

text \<open>A call of \<^verbatim>\<open>synth.triggerAttackRelease(notes, duration, time, velocity)\<close>; a single
  note is a one-element list.\<close>

datatype request = TriggerAttackRelease "string list" real real real

section \<open>\<^verbatim>\<open>keyToNote\<close>\<close>

text \<open>
  The key is one UTF-16 code unit. For a one-character key, \<^verbatim>\<open>/[A-Z]/i.test(key)\<close>
  holds exactly of the ASCII letters (without the \<^verbatim>\<open>u\<close> flag, case folding never maps
  a character outside ASCII into ASCII) and \<^verbatim>\<open>/[0-9]/.test(key)\<close> exactly of the ASCII
  digits. \<open>upperCode\<close> is \<^verbatim>\<open>key.toUpperCase().charCodeAt(0)\<close> for an ASCII key, and
  \<^verbatim>\<open>parseInt(key)\<close> of a digit key is its code minus 48. Reading \<^verbatim>\<open>scale.length\<close>
  throws when the lookup of the current scale gave \<^verbatim>\<open>undefined\<close>.

  The key names of the keyboard (\<^verbatim>\<open>Shift\<close>, \<^verbatim>\<open>Enter\<close>, \<^verbatim>\<open>F1\<close>, ...) are longer
  strings; they are not part of this model. Each consists of ASCII letters and digits
  and begins with a capital letter, so the code maps it as it maps that letter.
\<close>

definition isLetter :: "nat \<Rightarrow> bool" where
  "isLetter c = ((65 \<le> c \<and> c \<le> 90) \<or> (97 \<le> c \<and> c \<le> 122))"

definition isDigit :: "nat \<Rightarrow> bool" where
  "isDigit c = (48 \<le> c \<and> c \<le> 57)"

definition upperCode :: "nat \<Rightarrow> nat" where
  "upperCode c = (if 97 \<le> c \<and> c \<le> 122 then c - 32 else c)"

definition keyToNote :: "state \<Rightarrow> nat \<Rightarrow> error + string" where
  "keyToNote st key =
    (case SCALES_get (currentScale st) of
       None \<Rightarrow> Inl TypeError
     | Some scale \<Rightarrow>
         if isLetter key then
           (let letterIndex = upperCode key - 65;
                noteIndex = js_rem letterIndex (scale_length scale);
                octave = js_plus (range_min (OCTAVE_RANGES letters))
                           (js_floor_div letterIndex (scale_length scale));
                octave = clamp_max (range_max (OCTAVE_RANGES letters)) octave
            in Inr (scale_at scale noteIndex @ toString octave))
         else if isDigit key then
           (let numIndex = js_rem (key - 48) (scale_length scale);
                octave = js_plus (range_min (OCTAVE_RANGES numbers))
                           (js_floor_div (key - 48) (scale_length scale));
                octave = clamp_max (range_max (OCTAVE_RANGES numbers)) octave
            in Inr (scale_at scale numIndex @ toString octave))
         else
           (let charCode = key;
                noteIndex = js_rem charCode (scale_length scale);
                octave = js_plus (range_min (OCTAVE_RANGES special))
                           (js_floor_div (charCode mod 20) (Some 10));
                octave = clamp_max (range_max (OCTAVE_RANGES special)) octave
            in Inr (scale_at scale noteIndex @ toString octave)))"

section \<open>\<^verbatim>\<open>getChordNotes\<close>\<close>

text \<open>
  \<^verbatim>\<open>chordName.charAt(0)\<close> is the first character as a string, empty for the empty
  string; \<^verbatim>\<open>chordName.includes("m")\<close> asks for the character \<open>m\<close> anywhere in it.
\<close>

definition getChordNotes :: "string \<Rightarrow> string list" where
  "getChordNotes chordName =
    (let root = take 1 chordName;
         isMinor = (CHR ''m'' \<in> set chordName);
         baseOctave = 2;
         third = (if isMinor then 3 else 4);
         chromaticScale = the (map_of SCALES ''chromatic'')
     in case indexOf chromaticScale root of
          None \<Rightarrow> [root @ toString_nat baseOctave]
        | Some rootIndex \<Rightarrow>
            (let thirdNote = chromaticScale ! ((rootIndex + third) mod 12);
                 fifthNote = chromaticScale ! ((rootIndex + 7) mod 12)
             in [root @ toString_nat baseOctave,
                 thirdNote @ toString_nat baseOctave,
                 fifthNote @ toString_nat baseOctave]))"

section \<open>\<^verbatim>\<open>generateHarmony\<close>\<close>

text \<open>
  \<^verbatim>\<open>setTimeout\<close> with the delay in milliseconds and the note, duration and velocity of the
  \<^verbatim>\<open>triggerAttackRelease\<close> call its callback makes. The callback reads the clock and the
  synth when it runs.
\<close>

datatype timer = SetTimeout nat string real real

fun runTimer :: "state \<Rightarrow> real \<Rightarrow> timer \<Rightarrow> request list" where
  "runTimer st now (SetTimeout ms n d v) =
     (if synth st = None then [] else [TriggerAttackRelease [n] d now v])"

text \<open>\<^verbatim>\<open>octave + 1\<close> on the parsed octave.\<close>

fun js_succ :: "num \<Rightarrow> num" where
  "js_succ (Fin x) = Fin (x + 1)"
| "js_succ PosInf = PosInf"
| "js_succ NaN = NaN"

text \<open>
  The function returns the error it throws (if any), the timers it sets and the module
  state it leaves. \<^verbatim>\<open>scale.indexOf\<close> is a method of arrays only: on \<^verbatim>\<open>undefined\<close>
  and on the inherited values the call throws.
\<close>

definition generateHarmony :: "state \<Rightarrow> error option \<times> timer list \<times> state" where
  "generateHarmony st =
    (if synth st = None \<or> length (notesInQueue st) < 2 then (None, [], st)
     else if lastNotesPlayed st = [] \<or> last (lastNotesPlayed st) = [] then (None, [], st)
     else
       (let scale = SCALES_get (currentScale st);
            lastNote = last (lastNotesPlayed st);
            noteName = butlast lastNote;
            octave = parseInt_char (last lastNote)
        in case scale of
             None \<Rightarrow> (Some TypeError, [], st)
           | Some (NonArray l) \<Rightarrow> (Some TypeError, [], st)
           | Some (Arr xs) \<Rightarrow>
               (case indexOf xs noteName of
                  None \<Rightarrow> (None, [], st)
                | Some noteIndex \<Rightarrow>
                    (let thirdIndex = (noteIndex + 2) mod length xs;
                         fifthIndex = (noteIndex + 4) mod length xs;
                         thirdOctave = (if thirdIndex < noteIndex then js_succ octave else octave);
                         fifthOctave = (if fifthIndex < noteIndex then js_succ octave else octave)
                     in (None,
                         [SetTimeout 50 (xs ! thirdIndex @ toString thirdOctave) 0.4 0.4,
                          SetTimeout 100 (xs ! fifthIndex @ toString fifthOctave) 0.3 0.3],
                         st)))))"

section \<open>\<^verbatim>\<open>progressChordSequence\<close>\<close>

text \<open>
  \<open>random\<close> is the value \<^verbatim>\<open>Math.random()\<close> returns to the call, \<open>now\<close> the clock reading
  of the chord request. An index outside a table reads \<^verbatim>\<open>undefined\<close>, and the next
  property access on it throws: on the progression before the cursor is written, on the
  chord (inside \<^verbatim>\<open>getChordNotes\<close>) after.
\<close>

definition progressChordSequence ::
  "state \<Rightarrow> real \<Rightarrow> real \<Rightarrow> error option \<times> request list \<times> state" where
  "progressChordSequence st random now =
    (if synth st = None then (None, [], st)
     else if random > 0.2 then (None, [], st)
     else if currentProgression st \<ge> length CHORD_PROGRESSIONS then (Some TypeError, [], st)
     else
       (let progression = CHORD_PROGRESSIONS ! currentProgression st;
            st' = st\<lparr>progressionIndex := (progressionIndex st + 1) mod length progression\<rparr>
        in if progressionIndex st \<ge> length progression then (Some TypeError, [], st')
           else
             (let chord = progression ! progressionIndex st;
                  chordNotes = getChordNotes chord
              in (None, [TriggerAttackRelease chordNotes 1.5 now 0.1], st'))))"

section \<open>\<^verbatim>\<open>initAudioEngine\<close> and \<^verbatim>\<open>cleanupAudioEngine\<close>\<close>

text \<open>
  One run of the asynchronous \<^verbatim>\<open>initAudioEngine\<close> from its guard to its end. \<open>started\<close>
  tells whether the awaited \<^verbatim>\<open>Tone.start()\<close> resolved; the constructors and engine calls
  after it are taken to succeed. The run ends with the silent note.
\<close>

definition initAudioEngine :: "state \<Rightarrow> real \<Rightarrow> bool \<Rightarrow> real \<Rightarrow> request list \<times> state" where
  "initAudioEngine st volume started now =
    (if synth st \<noteq> None then ([], st)
     else if \<not> started then ([], st)
     else ([TriggerAttackRelease [''C4''] 0.01 now 0.01],
           st\<lparr>synth := Some volume, reverb := Some 0.3, delay := Some 0.2\<rparr>))"

definition cleanupAudioEngine :: "state \<Rightarrow> state" where
  "cleanupAudioEngine st = st\<lparr>synth := None, reverb := None, delay := None\<rparr>"

section \<open>\<^verbatim>\<open>playNote\<close>\<close>

text \<open>
  What the host returns to one call of \<^verbatim>\<open>playNote\<close>, in the order the code asks: the
  clock reading stored with the queued note, the one the queue is pruned against, the one
  of the play request, the random draw of the harmony test (taken only when the queue holds
  more than one note), the random draw and the clock reading of the chord step.
\<close>

record env =
  now_push :: real
  now_filter :: real
  now_play :: real
  random_harmony :: real
  random_chord :: real
  now_chord :: real

text \<open>
  What one call does besides writing the module state: the requests sent to the synth, the
  timers set, whether \<^verbatim>\<open>initAudioEngine\<close> was called, and the error the
  \<^verbatim>\<open>try\<close> block caught (it is logged). The synth is an outside collaborator: a
  request is recorded and taken to return. Console output is not modelled.
\<close>

record effects =
  requests :: "request list"
  timers :: "timer list"
  initAttempted :: bool
  caught :: "error option"

definition playNote :: "state \<Rightarrow> env \<Rightarrow> nat \<Rightarrow> real \<Rightarrow> real \<Rightarrow> effects \<times> state" where
  "playNote st env key duration velocity =
    (if synth st = None then
       (\<lparr>requests = [], timers = [], initAttempted = True, caught = None\<rparr>, st)
     else
       case keyToNote st key of
         Inl e \<Rightarrow> (\<lparr>requests = [], timers = [], initAttempted = False, caught = Some e\<rparr>, st)
       | Inr note \<Rightarrow>
           (let history = lastNotesPlayed st @ [note];
                st1 = st\<lparr>lastNotesPlayed := drop (length history - 8) history\<rparr>;
                st2 = st1\<lparr>notesInQueue :=
                        notesInQueue st1 @ [\<lparr>note_of = note, time_of = now_push env\<rparr>]\<rparr>;
                now = now_filter env;
                st3 = st2\<lparr>notesInQueue := filter (\<lambda>n. now - time_of n < 2) (notesInQueue st2)\<rparr>;
                played = [TriggerAttackRelease [note] duration (now_play env) velocity];
                (e1, ts, st4) =
                   (if length (notesInQueue st3) > 1 \<and> random_harmony env > 0.6
                    then generateHarmony st3 else (None, [], st3))
            in case e1 of
                 Some e \<Rightarrow>
                   (\<lparr>requests = played, timers = ts, initAttempted = False, caught = Some e\<rparr>, st4)
               | None \<Rightarrow>
                   (let (e2, rs, st5) = progressChordSequence st4 (random_chord env) (now_chord env)
                    in (\<lparr>requests = played @ rs, timers = ts, initAttempted = False, caught = e2\<rparr>,
                        st5))))"

section \<open>\<^verbatim>\<open>updateMusicSettings\<close>\<close>

text \<open>The argument object: an absent field is \<open>None\<close>.\<close>

record settings =
  settings_volume :: "real option"
  settings_scale :: "string option"
  settings_reverb :: "real option"
  settings_delay :: "real option"

text \<open>
  \<open>r1\<close> is the random draw of the progression test, \<open>r2\<close> the draw that picks the new
  progression (taken only when the test succeeds).
\<close>

definition updateMusicSettings :: "state \<Rightarrow> settings \<Rightarrow> real \<Rightarrow> real \<Rightarrow> state" where
  "updateMusicSettings st s r1 r2 =
    (if synth st = None \<or> reverb st = None \<or> delay st = None then st
     else
       (let st1 = (case settings_volume s of None \<Rightarrow> st | Some v \<Rightarrow> st\<lparr>synth := Some v\<rparr>);
            st2 = (case settings_scale s of
                     None \<Rightarrow> st1
                   | Some name \<Rightarrow>
                       if SCALES_get name \<noteq> None then st1\<lparr>currentScale := name\<rparr> else st1);
            st3 = (case settings_reverb s of None \<Rightarrow> st2 | Some w \<Rightarrow> st2\<lparr>reverb := Some w\<rparr>);
            st4 = (case settings_delay s of None \<Rightarrow> st3 | Some w \<Rightarrow> st3\<lparr>delay := Some w\<rparr>)
        in if r1 > 0.7
           then st4\<lparr>currentProgression := nat \<lfloor>r2 * real (length CHORD_PROGRESSIONS)\<rfloor>,
                    progressionIndex := 0\<rparr>
           else st4))"

section \<open>The key-to-note mapping as the specification words it\<close>

text \<open>
  The specification's algorithm, written from its five steps: classify the character,
  select the octave range of the class, compute an index and an octave from the position of
  the character (its place in the alphabet, its digit value, or its character code), and
  return the scale entry followed by the octave.
\<close>

datatype key_class = Letter | Digit | Other

definition upper_alphabet :: "nat list" where
  "upper_alphabet = map of_char ''ABCDEFGHIJKLMNOPQRSTUVWXYZ''"

definition lower_alphabet :: "nat list" where
  "lower_alphabet = map of_char ''abcdefghijklmnopqrstuvwxyz''"

definition digits :: "nat list" where
  "digits = map of_char ''0123456789''"

definition spec_classify :: "nat \<Rightarrow> key_class" where
  "spec_classify c =
    (if c \<in> set upper_alphabet \<or> c \<in> set lower_alphabet then Letter
     else if c \<in> set digits then Digit else Other)"

fun spec_range :: "key_class \<Rightarrow> octave_range" where
  "spec_range Letter = OCTAVE_RANGES letters"
| "spec_range Digit = OCTAVE_RANGES numbers"
| "spec_range Other = OCTAVE_RANGES special"

definition spec_position :: "nat \<Rightarrow> nat" where
  "spec_position c =
    (case spec_classify c of
       Letter \<Rightarrow>
         (case indexOf upper_alphabet c of
            Some i \<Rightarrow> i
          | None \<Rightarrow> the (indexOf lower_alphabet c))
     | Digit \<Rightarrow> the (indexOf digits c)
     | Other \<Rightarrow> c)"

definition spec_index :: "string list \<Rightarrow> nat \<Rightarrow> nat" where
  "spec_index scale c = spec_position c mod length scale"

definition spec_octave :: "string list \<Rightarrow> nat \<Rightarrow> nat" where
  "spec_octave scale c =
    (let r = spec_range (spec_classify c);
         offset = (case spec_classify c of
                     Other \<Rightarrow> (c mod 20) div 10
                   | _ \<Rightarrow> spec_position c div length scale)
     in min (range_max r) (range_min r + offset))"

definition spec_keyToNote :: "string list \<Rightarrow> nat \<Rightarrow> string" where
  "spec_keyToNote scale c = scale ! spec_index scale c @ toString_nat (spec_octave scale c)"

section \<open>Well-formed progression state\<close>

text \<open>
  The active progression is one of the table and the cursor points into it. The module
  starts in such a state and every operation keeps it so (shown below), so the reads
  \<^verbatim>\<open>CHORD_PROGRESSIONS[currentProgression]\<close> and \<^verbatim>\<open>progression[progressionIndex]\<close>
  find a chord in every state the module reaches.
\<close>

definition progression_ok :: "state \<Rightarrow> bool" where
  "progression_ok st =
    (currentProgression st < length CHORD_PROGRESSIONS
     \<and> progressionIndex st < length (CHORD_PROGRESSIONS ! currentProgression st))"

section \<open>Sample states\<close>

text \<open>
  \<open>ready\<close> is the module state after \<^verbatim>\<open>initAudioEngine(0.5)\<close> has succeeded from the
  initial state. \<open>playing\<close> and \<open>two_queued\<close> are states in the middle of a session;
  \<open>sample_env\<close> is one set of host answers to a call of \<^verbatim>\<open>playNote\<close>.
\<close>

definition ready :: state where
  "ready = initial\<lparr>synth := Some 0.5, reverb := Some 0.3, delay := Some 0.2\<rparr>"

definition playing :: state where
  "playing = ready\<lparr>lastNotesPlayed := [''E3'', ''G4''],
     notesInQueue := [\<lparr>note_of = ''E3'', time_of = 9.5\<rparr>, \<lparr>note_of = ''G4'', time_of = 10\<rparr>]\<rparr>"

definition two_queued :: state where
  "two_queued = ready\<lparr>lastNotesPlayed := [''C3'', ''A4''],
     notesInQueue := [\<lparr>note_of = ''C3'', time_of = 10\<rparr>, \<lparr>note_of = ''A4'', time_of = 11\<rparr>]\<rparr>"

definition sample_env :: env where
  "sample_env = \<lparr>now_push = 11.6, now_filter = 11.6, now_play = 11.6,
                  random_harmony = 0.9, random_chord = 0.1, now_chord = 11.6\<rparr>"

section \<open>Auxiliary facts\<close>

lemma indexOf_Some: "indexOf xs x = Some i \<Longrightarrow> i < length xs \<and> xs ! i = x"
proof (induction xs arbitrary: i)
  case Nil
  then show ?case by simp
next
  case (Cons y ys)
  show ?case
  proof (cases "x = y")
    case True
    with Cons.prems show ?thesis by simp
  next
    case False
    with Cons.prems obtain j where j: "indexOf ys x = Some j" and i: "i = Suc j"
      by auto
    from Cons.IH [OF j] i show ?thesis by simp
  qed
qed

lemma indexOf_None: "(indexOf xs x = None) = (x \<notin> set xs)"
  by (induction xs) auto

lemma indexOf_in_set: "x \<in> set xs \<Longrightarrow> \<exists>i. indexOf xs x = Some i"
  using indexOf_None [of xs x] by (cases "indexOf xs x") auto

lemma chromatic_table:
  "the (map_of SCALES ''chromatic'') =
     [''C'', ''C#'', ''D'', ''D#'', ''E'', ''F'', ''F#'', ''G'', ''G#'', ''A'', ''A#'', ''B'']"
  by (simp add: SCALES_def)

lemma toString_nat_digit: "d < 10 \<Longrightarrow> toString_nat d = [digit_char d]"
  by (simp add: toString_nat.simps)

lemma digit_char_simps:
  "digit_char 0 = CHR ''0''" "digit_char 1 = CHR ''1''" "digit_char 2 = CHR ''2''"
  "digit_char 3 = CHR ''3''" "digit_char 4 = CHR ''4''" "digit_char 5 = CHR ''5''"
  "digit_char 6 = CHR ''6''" "digit_char 7 = CHR ''7''" "digit_char 8 = CHR ''8''"
  "digit_char 9 = CHR ''9''"
  unfolding digit_char_def by code_simp+

lemma toString_nat_2: "toString_nat 2 = ''2''"
  by (simp add: toString_nat.simps digit_char_simps)

lemma indexOf_nth: "distinct xs \<Longrightarrow> i < length xs \<Longrightarrow> indexOf xs (xs ! i) = Some i"
proof (induction xs arbitrary: i)
  case Nil
  then show ?case by simp
next
  case (Cons y ys)
  show ?case
  proof (cases i)
    case 0
    then show ?thesis by simp
  next
    case (Suc j)
    with Cons.prems have "j < length ys" and "ys ! j \<noteq> y" and "distinct ys"
      by auto
    with Cons.IH [of j] Suc show ?thesis by simp
  qed
qed

lemma parseInt_digit_char: "d < 10 \<Longrightarrow> parseInt_char (digit_char d) = Fin d"
  by (simp add: parseInt_char_def digit_char_def)

lemma getChordNotes_cases:
  "getChordNotes chordName =
    (case indexOf (the (map_of SCALES ''chromatic'')) (take 1 chordName) of
       None \<Rightarrow> [take 1 chordName @ ''2'']
     | Some i \<Rightarrow>
        [take 1 chordName @ ''2'',
         the (map_of SCALES ''chromatic'') ! ((i + (if CHR ''m'' \<in> set chordName then 3 else 4)) mod 12) @ ''2'',
         the (map_of SCALES ''chromatic'') ! ((i + 7) mod 12) @ ''2''])"
  by (simp add: getChordNotes_def Let_def toString_nat_2 split: option.split)

lemma registry_scale:
  assumes "map_of SCALES name = Some scale"
  shows "scale \<in> {[''C'', ''D'', ''E'', ''F'', ''G'', ''A'', ''B''],
                   [''C'', ''D'', ''Eb'', ''F'', ''G'', ''Ab'', ''Bb''],
                   [''C'', ''D'', ''E'', ''G'', ''A''],
                   [''C'', ''Eb'', ''F'', ''F#'', ''G'', ''Bb''],
                   [''C'', ''C#'', ''D'', ''D#'', ''E'', ''F'', ''F#'', ''G'', ''G#'', ''A'', ''A#'', ''B'']}"
  using map_of_SomeD [OF assms] by (auto simp: SCALES_def)

lemma registry_scale_length:
  assumes "map_of SCALES name = Some scale"
  shows "5 \<le> length scale" and "distinct scale"
  using registry_scale [OF assms] by auto

lemma SCALES_get_registry:
  "map_of SCALES name = Some scale \<Longrightarrow> SCALES_get name = Some (Arr scale)"
  by (simp add: SCALES_get_def)

lemma registry_name_iff:
  "(name \<in> set (map fst SCALES)) = (\<exists>scale. map_of SCALES name = Some scale)"
  by (metis map_of_eq_None_iff not_Some_eq set_map)

lemma keyToNote_letter:
  assumes "map_of SCALES (currentScale st) = Some scale" and "isLetter key"
  shows "keyToNote st key =
    Inr (scale ! ((upperCode key - 65) mod length scale)
         @ toString_nat (min 5 (3 + (upperCode key - 65) div length scale)))"
proof -
  from registry_scale_length(1) [OF assms(1)] have n: "scale \<noteq> []" by auto
  show ?thesis
    using assms(2) n
    by (simp add: keyToNote_def SCALES_get_registry [OF assms(1)] Let_def min_def)
qed

lemma keyToNote_digit:
  assumes "map_of SCALES (currentScale st) = Some scale" and "\<not> isLetter key" and "isDigit key"
  shows "keyToNote st key =
    Inr (scale ! ((key - 48) mod length scale)
         @ toString_nat (min 4 (2 + (key - 48) div length scale)))"
proof -
  from registry_scale_length(1) [OF assms(1)] have n: "scale \<noteq> []" by auto
  show ?thesis
    using assms(2,3) n
    by (simp add: keyToNote_def SCALES_get_registry [OF assms(1)] Let_def min_def)
qed

lemma keyToNote_other:
  assumes "map_of SCALES (currentScale st) = Some scale" and "\<not> isLetter key" and "\<not> isDigit key"
  shows "keyToNote st key =
    Inr (scale ! (key mod length scale) @ toString_nat (min 3 (1 + (key mod 20) div 10)))"
proof -
  from registry_scale_length(1) [OF assms(1)] have n: "scale \<noteq> []" by auto
  have "key mod 20 < 2 * 10" by simp
  then have small: "key mod 20 div 10 < 2" by (rule less_mult_imp_div_less)
  show ?thesis
    using assms(2,3) n small
    by (simp add: keyToNote_def SCALES_get_registry [OF assms(1)] Let_def min_def)
qed

lemma indexOf_upt: "indexOf [a..<b] x = (if a \<le> x \<and> x < b then Some (x - a) else None)"
proof (induction "b - a" arbitrary: a)
  case 0
  then show ?case by simp
next
  case (Suc n)
  then have ab: "a < b" and n: "n = b - Suc a" by simp_all
  from ab have "[a..<b] = a # [Suc a..<b]" by (simp add: upt_rec)
  with Suc.hyps(1) [OF n] ab show ?case by auto
qed

lemma upper_alphabet_upt: "upper_alphabet = [65..<91]"
  unfolding upper_alphabet_def by code_simp

lemma lower_alphabet_upt: "lower_alphabet = [97..<123]"
  unfolding lower_alphabet_def by code_simp

lemma digits_upt: "digits = [48..<58]"
  unfolding digits_def by code_simp

lemma mem_alphabets:
  "(c \<in> set upper_alphabet) = (65 \<le> c \<and> c \<le> 90)"
  "(c \<in> set lower_alphabet) = (97 \<le> c \<and> c \<le> 122)"
  "(c \<in> set digits) = (48 \<le> c \<and> c \<le> 57)"
  unfolding upper_alphabet_upt lower_alphabet_upt digits_upt set_upt atLeastLessThan_iff
  by arith+

lemma indexOf_alphabets:
  "indexOf upper_alphabet c = (if 65 \<le> c \<and> c < 91 then Some (c - 65) else None)"
  "indexOf lower_alphabet c = (if 97 \<le> c \<and> c < 123 then Some (c - 97) else None)"
  "indexOf digits c = (if 48 \<le> c \<and> c < 58 then Some (c - 48) else None)"
  unfolding upper_alphabet_upt lower_alphabet_upt digits_upt
  by (rule indexOf_upt)+

lemma spec_classify_eq:
  "spec_classify c = (if isLetter c then Letter else if isDigit c then Digit else Other)"
  by (simp add: spec_classify_def mem_alphabets isLetter_def isDigit_def)

lemma spec_position_eq:
  "spec_position c = (if isLetter c then upperCode c - 65 else if isDigit c then c - 48 else c)"
  by (auto simp: spec_position_def spec_classify_eq indexOf_alphabets
      isLetter_def isDigit_def upperCode_def)

lemma SCALES_get_truthy:
  assumes "name \<notin> set (map fst Object_prototype)"
  shows "(SCALES_get name \<noteq> None) = (name \<in> set (map fst SCALES))"
proof (cases "map_of SCALES name")
  case None
  then have own: "name \<notin> set (map fst SCALES)"
    by (simp add: map_of_eq_None_iff)
  from assms have "map_of Object_prototype name = None"
    by (simp add: map_of_eq_None_iff)
  with None have "SCALES_get name = None"
    by (simp add: SCALES_get_def)
  with own show ?thesis by simp
next
  case (Some xs)
  then have "name \<in> set (map fst SCALES)"
    by (metis map_of_eq_None_iff option.distinct(1) set_map)
  moreover from Some have "SCALES_get name = Some (Arr xs)"
    by (simp add: SCALES_get_def)
  ultimately show ?thesis by simp
qed

lemma generateHarmony_state: "snd (snd (generateHarmony st)) = st"
  by (simp add: generateHarmony_def Let_def split: option.splits scale_value.splits)

lemma harmony_step_state:
  "snd (snd (if b then generateHarmony st else (None, [], st))) = st"
  by (simp add: generateHarmony_state)

lemma progressChordSequence_queue:
  "notesInQueue (snd (snd (progressChordSequence st r now))) = notesInQueue st"
  by (simp add: progressChordSequence_def Let_def)

lemma playNote_queue:
  assumes "synth st = Some g" and "keyToNote st key = Inr n"
  shows "notesInQueue (snd (playNote st env key duration velocity)) =
           filter (\<lambda>e. now_filter env - time_of e < 2)
             (notesInQueue st @ [\<lparr>note_of = n, time_of = now_push env\<rparr>])"
  using assms
  by (simp add: playNote_def Let_def case_prod_beta harmony_step_state
      progressChordSequence_queue split: option.splits)


lemma keyToNote_total:
  assumes "SCALES_get (currentScale st) \<noteq> None"
  shows "\<exists>n. keyToNote st key = Inr n"
  using assms by (auto simp: keyToNote_def Let_def)

lemma generateHarmony_short_queue:
  "length (notesInQueue st) < 2 \<Longrightarrow> generateHarmony st = (None, [], st)"
  by (simp add: generateHarmony_def)

lemma playNote_timers:
  assumes "timers (fst (playNote st env key duration velocity)) \<noteq> []"
  shows "random_harmony env > 0.6
    \<and> 1 < length (notesInQueue (snd (playNote st env key duration velocity)))"
proof (cases "synth st")
  case None
  with assms show ?thesis
    by (simp add: playNote_def)
next
  case (Some g)
  show ?thesis
  proof (cases "keyToNote st key")
    case (Inl e)
    with Some assms show ?thesis by (simp add: playNote_def)
  next
    case (Inr n)
    with Some assms show ?thesis
      by (simp add: playNote_def Let_def case_prod_beta harmony_step_state
          progressChordSequence_queue split: option.splits if_splits)
  qed
qed

lemma progressChordSequence_fires:
  assumes "synth st = Some g" and "random \<le> 0.2"
    and "currentProgression st < length CHORD_PROGRESSIONS"
    and "progressionIndex st < length (CHORD_PROGRESSIONS ! currentProgression st)"
  shows "progressChordSequence st random now =
    (None,
     [TriggerAttackRelease
        (getChordNotes (CHORD_PROGRESSIONS ! currentProgression st ! progressionIndex st))
        1.5 now 0.1],
     st\<lparr>progressionIndex :=
          (progressionIndex st + 1) mod length (CHORD_PROGRESSIONS ! currentProgression st)\<rparr>)"
  using assms by (simp add: progressChordSequence_def Let_def)

lemma generateHarmony_no_error:
  assumes "map_of SCALES (currentScale st) = Some scale"
  shows "fst (generateHarmony st) = None"
  by (simp add: generateHarmony_def SCALES_get_registry [OF assms] Let_def split: option.splits)

lemma keyToNote_registry:
  assumes "map_of SCALES (currentScale st) = Some scale"
  shows "\<exists>n. keyToNote st key = Inr n"
  by (rule keyToNote_total) (simp add: SCALES_get_registry [OF assms])

lemma wrap_iff:
  fixes i k n :: nat
  assumes "i < n" and "0 < k" and "k < n"
  shows "((i + k) mod n < i) = (n \<le> i + k)"
proof (cases "i + k < n")
  case True
  then show ?thesis by simp
next
  case False
  then have "(i + k) mod n = (i + k - n) mod n"
    by (simp add: le_mod_geq)
  also from assms False have "\<dots> = i + k - n"
    by simp
  finally show ?thesis
    using assms False by simp
qed

lemma ready_initAudioEngine: "initAudioEngine initial 0.5 True now = ([TriggerAttackRelease [''C4''] 0.01 now 0.01], ready)"
  by (simp add: initAudioEngine_def ready_def initial_def)

lemma keyToNote_playing: "keyToNote playing 97 = Inr ''C3''"
  by (simp add: keyToNote_def playing_def ready_def initial_def SCALES_get_def SCALES_def
      isLetter_def upperCode_def toString_nat_digit digit_char_simps)

lemma synth_playing: "synth playing = Some 0.5"
  by (simp add: playing_def ready_def)

lemma sample_run:
  "playNote playing sample_env (of_char CHR ''a'') 0.5 0.7 =
     (\<lparr>requests = [TriggerAttackRelease [''C3''] 0.5 11.6 0.7,
                    TriggerAttackRelease [''C2'', ''E2'', ''G2''] 1.5 11.6 0.1],
       timers = [SetTimeout 50 ''E3'' 0.4 0.4, SetTimeout 100 ''A3'' 0.3 0.3],
       initAttempted = False, caught = None\<rparr>,
      ready\<lparr>lastNotesPlayed := [''E3'', ''G4'', ''C3''],
             notesInQueue := [\<lparr>note_of = ''G4'', time_of = 10\<rparr>, \<lparr>note_of = ''C3'', time_of = 11.6\<rparr>],
             progressionIndex := 1\<rparr>)"
  by (simp add: playNote_def keyToNote_playing synth_playing Let_def)
     (simp add: playing_def sample_env_def ready_def initial_def generateHarmony_def
      progressChordSequence_def CHORD_PROGRESSIONS_def getChordNotes_cases chromatic_table
      SCALES_get_def SCALES_def parseInt_char_def toString_nat_digit digit_char_simps Let_def)

lemma progression_nonempty:
  "p < length CHORD_PROGRESSIONS \<Longrightarrow> 0 < length (CHORD_PROGRESSIONS ! p)"
  by (auto simp: CHORD_PROGRESSIONS_def nth_Cons' )

lemma progression_ok_initial: "progression_ok initial"
  by (simp add: progression_ok_def initial_def CHORD_PROGRESSIONS_def)

lemma progression_ok_progressChordSequence:
  assumes "progression_ok st"
  shows "progression_ok (snd (snd (progressChordSequence st r now)))"
  using assms progression_nonempty [of "currentProgression st"]
  by (simp add: progressChordSequence_def progression_ok_def Let_def)

lemma progression_ok_playNote:
  assumes "progression_ok st"
  shows "progression_ok (snd (playNote st env key duration velocity))"
proof (cases "synth st")
  case None
  with assms show ?thesis by (simp add: playNote_def)
next
  case (Some g)
  show ?thesis
  proof (cases "keyToNote st key")
    case (Inl e)
    with Some assms show ?thesis by (simp add: playNote_def)
  next
    case (Inr n)
    define st3 where "st3 = st\<lparr>lastNotesPlayed :=
        drop (length (lastNotesPlayed st @ [n]) - 8) (lastNotesPlayed st @ [n]),
      notesInQueue := filter (\<lambda>e. now_filter env - time_of e < 2)
        (notesInQueue st @ [\<lparr>note_of = n, time_of = now_push env\<rparr>])\<rparr>"
    have ok3: "progression_ok st3"
      using assms by (simp add: st3_def progression_ok_def)
    have "snd (playNote st env key duration velocity) = st3
        \<or> snd (playNote st env key duration velocity) =
            snd (snd (progressChordSequence st3 (random_chord env) (now_chord env)))"
      using Some Inr
      by (simp add: playNote_def Let_def case_prod_beta generateHarmony_state st3_def
          split: option.splits)
    with ok3 progression_ok_progressChordSequence [OF ok3] show ?thesis
      by auto
  qed
qed

lemma progression_ok_updateMusicSettings:
  assumes "progression_ok st" and "0 \<le> r2" and "r2 < 1"
  shows "progression_ok (updateMusicSettings st s r1 r2)"
proof -
  from assms(2,3) have "0 \<le> r2 * 5" and "r2 * 5 < 5" by simp_all
  then have "nat \<lfloor>r2 * 5\<rfloor> < 5"
    by linarith
  then have pick: "nat \<lfloor>r2 * real (length CHORD_PROGRESSIONS)\<rfloor> < length CHORD_PROGRESSIONS"
    by (simp add: CHORD_PROGRESSIONS_def)
  show ?thesis
    using assms(1) pick progression_nonempty [OF pick]
    by (simp add: updateMusicSettings_def progression_ok_def Let_def split: option.splits)
qed

lemma progression_ok_engine:
  assumes "progression_ok st"
  shows "progression_ok (snd (initAudioEngine st volume started now))"
    and "progression_ok (cleanupAudioEngine st)"
  using assms by (simp_all add: initAudioEngine_def cleanupAudioEngine_def progression_ok_def)

section \<open>The key-to-note mapping\<close>

text \<open>
  Claim C1. For every one-character key, \<^verbatim>\<open>keyToNote\<close> returns what the specification's
  algorithm returns on the current scale: the key is classified as letter, digit or other;
  the index is the position in the alphabet (A = 0, either case), the digit value or the
  character code, reduced modulo the scale length; the octave is the minimum of the class
  plus the position divided by the scale length (for other characters plus the code modulo
  20 divided by 10), cut off at the maximum of the class; the result is the scale entry at
  the index followed by the octave. The current scale is one of the registry.
\<close>

theorem keyToNote_refines_spec:
  assumes "map_of SCALES (currentScale st) = Some scale"
  shows "keyToNote st key = Inr (spec_keyToNote scale key)"
proof (cases "isLetter key")
  case True
  then show ?thesis
    by (simp add: keyToNote_letter [OF assms] spec_keyToNote_def spec_index_def
        spec_octave_def spec_position_eq spec_classify_eq)
next
  case False
  show ?thesis
  proof (cases "isDigit key")
    case True
    with False show ?thesis
      by (simp add: keyToNote_digit [OF assms] spec_keyToNote_def spec_index_def
          spec_octave_def spec_position_eq spec_classify_eq)
  next
    case nd: False
    with False show ?thesis
      by (simp add: keyToNote_other [OF assms] spec_keyToNote_def spec_index_def
          spec_octave_def spec_position_eq spec_classify_eq)
  qed
qed

theorem keyToNote_refines_spec_witness:
  "map_of SCALES (currentScale initial) = Some [''C'', ''D'', ''E'', ''G'', ''A'']
   \<and> keyToNote initial (of_char CHR ''z'') = Inr ''C5''
   \<and> spec_keyToNote [''C'', ''D'', ''E'', ''G'', ''A''] (of_char CHR ''z'') = ''C5''"
proof -
  have h: "map_of SCALES (currentScale initial) = Some [''C'', ''D'', ''E'', ''G'', ''A'']"
    by (simp add: initial_def SCALES_def)
  have v: "spec_keyToNote [''C'', ''D'', ''E'', ''G'', ''A''] (of_char CHR ''z'') = ''C5''"
    by (simp add: spec_keyToNote_def spec_index_def spec_octave_def spec_position_eq
        spec_classify_eq isLetter_def upperCode_def toString_nat_digit digit_char_simps)
  show ?thesis
    using h v keyToNote_refines_spec [OF h, of "of_char CHR ''z''"] by simp
qed

text \<open>
  Claim C2. For every scale name of the registry and every letter key (A to Z, either case),
  the note \<^verbatim>\<open>keyToNote\<close> returns is a pitch class of that scale followed by an octave
  digit, and the octave is at most 5, the maximum of the letter class. The note is taken
  apart the way \<^verbatim>\<open>generateHarmony\<close> does it: all but the last character, and the last
  character parsed as a number.
\<close>

theorem letter_octave_bounded:
  assumes "currentScale st \<in> set (map fst SCALES)" and "isLetter key"
  shows "\<exists>scale note octave.
           map_of SCALES (currentScale st) = Some scale \<and>
           keyToNote st key = Inr note \<and>
           butlast note \<in> set scale \<and>
           parseInt_char (last note) = Fin octave \<and> 3 \<le> octave \<and> octave \<le> 5"
proof -
  from assms(1) obtain scale where scale: "map_of SCALES (currentScale st) = Some scale"
    using registry_name_iff by blast
  define i where "i = (upperCode key - 65) mod length scale"
  define octave where "octave = min 5 (3 + (upperCode key - 65) div length scale)"
  from registry_scale_length(1) [OF scale] have "0 < length scale"
    by linarith
  then have "i < length scale"
    unfolding i_def by (rule mod_less_divisor)
  then have pitch: "scale ! i \<in> set scale" by simp
  have small: "octave < 10" and bound: "3 \<le> octave" "octave \<le> 5"
    by (simp_all add: octave_def)
  have eq: "keyToNote st key = Inr (scale ! i @ [digit_char octave])"
    using keyToNote_letter [OF scale assms(2)] toString_nat_digit [OF small]
    by (simp add: i_def octave_def)
  show ?thesis
    using eq pitch bound parseInt_digit_char [OF small] scale by auto
qed

theorem letter_octave_bounded_witness:
  "currentScale initial \<in> set (map fst SCALES) \<and> isLetter (of_char CHR ''z'')
   \<and> keyToNote initial (of_char CHR ''z'') = Inr ''C5''
   \<and> butlast ''C5'' \<in> set [''C'', ''D'', ''E'', ''G'', ''A'']
   \<and> parseInt_char (last ''C5'') = Fin 5"
proof -
  have h1: "currentScale initial \<in> set (map fst SCALES)"
    by (simp add: initial_def SCALES_def)
  have h2: "isLetter (of_char CHR ''z'')"
    by (simp add: isLetter_def)
  from letter_octave_bounded [OF h1 h2] obtain scale n octave
    where r: "map_of SCALES (currentScale initial) = Some scale"
      "keyToNote initial (of_char CHR ''z'') = Inr n" "butlast n \<in> set scale"
      "parseInt_char (last n) = Fin octave" "octave \<le> 5"
    by blast
  have v: "keyToNote initial (of_char CHR ''z'') = Inr ''C5''"
    by (simp add: keyToNote_def initial_def SCALES_get_def SCALES_def isLetter_def
        upperCode_def toString_nat_digit digit_char_simps)
  from r(1) have s: "scale = [''C'', ''D'', ''E'', ''G'', ''A'']"
    by (simp add: initial_def SCALES_def)
  from r(2) v have "n = ''C5''" by simp
  with r s h1 h2 v show ?thesis by (simp add: parseInt_char_def)
qed

section \<open>Harmony generation\<close>

text \<open>
  Claim C3. When harmony generation runs (the synth is present, at least two notes are
  queued) on a most recent note whose pitch class is the entry at index \<open>i\<close> of the current
  scale, it sets exactly two timers, for the scale entries at \<open>(i + 2) mod n\<close> and
  \<open>(i + 4) mod n\<close> (\<open>n\<close> the scale length). Each harmony note has the octave of the
  triggering note, raised by one exactly when its reduced index is smaller than \<open>i\<close>; on
  the scales of the registry that is exactly when \<open>i + 2\<close> (or \<open>i + 4\<close>) reaches the scale
  length. The module state is left as it was.
\<close>

theorem generateHarmony_third_and_fifth:
  assumes "synth st \<noteq> None" and "2 \<le> length (notesInQueue st)"
    and "lastNotesPlayed st \<noteq> []"
    and "last (lastNotesPlayed st) = pitch @ [digit_char octave]" and "octave < 10"
    and "map_of SCALES (currentScale st) = Some scale"
    and "i < length scale" and "scale ! i = pitch"
  shows "generateHarmony st =
    (None,
     [SetTimeout 50
        (scale ! ((i + 2) mod length scale)
         @ toString_nat (if (i + 2) mod length scale < i then octave + 1 else octave))
        0.4 0.4,
      SetTimeout 100
        (scale ! ((i + 4) mod length scale)
         @ toString_nat (if (i + 4) mod length scale < i then octave + 1 else octave))
        0.3 0.3],
     st)
   \<and> ((i + 2) mod length scale < i) = (length scale \<le> i + 2)
   \<and> ((i + 4) mod length scale < i) = (length scale \<le> i + 4)"
proof (intro conjI)
  from assms(1) obtain g where g: "synth st = Some g" by auto
  from registry_scale_length [OF assms(6)] have len: "5 \<le> length scale" and dist: "distinct scale"
    by simp_all
  from indexOf_nth [OF dist assms(7)] assms(8) have idx: "indexOf scale pitch = Some i"
    by simp
  have oct: "parseInt_char (digit_char octave) = Fin octave"
    by (rule parseInt_digit_char [OF assms(5)])
  show "generateHarmony st =
    (None,
     [SetTimeout 50
        (scale ! ((i + 2) mod length scale)
         @ toString_nat (if (i + 2) mod length scale < i then octave + 1 else octave))
        0.4 0.4,
      SetTimeout 100
        (scale ! ((i + 4) mod length scale)
         @ toString_nat (if (i + 4) mod length scale < i then octave + 1 else octave))
        0.3 0.3],
     st)"
    using g assms(2,3,4) idx oct
    by (simp add: generateHarmony_def SCALES_get_registry [OF assms(6)] Let_def)
  from len assms(7) show "((i + 2) mod length scale < i) = (length scale \<le> i + 2)"
    by (intro wrap_iff) simp_all
  from len assms(7) show "((i + 4) mod length scale < i) = (length scale \<le> i + 4)"
    by (intro wrap_iff) simp_all
qed

theorem generateHarmony_third_and_fifth_witness:
  "generateHarmony two_queued =
     (None, [SetTimeout 50 ''D5'' 0.4 0.4, SetTimeout 100 ''G5'' 0.3 0.3], two_queued)"
proof -
  have h: "synth two_queued \<noteq> None" "2 \<le> length (notesInQueue two_queued)"
    "lastNotesPlayed two_queued \<noteq> []"
    "last (lastNotesPlayed two_queued) = ''A'' @ [digit_char 4]" "(4::nat) < 10"
    "map_of SCALES (currentScale two_queued) = Some [''C'', ''D'', ''E'', ''G'', ''A'']"
    "4 < length [''C'', ''D'', ''E'', ''G'', ''A'']"
    "[''C'', ''D'', ''E'', ''G'', ''A''] ! 4 = ''A''"
    by (simp_all add: two_queued_def ready_def initial_def SCALES_def digit_char_simps)
  show ?thesis
    using generateHarmony_third_and_fifth [OF h]
    by (simp add: toString_nat_digit digit_char_simps)
qed

text \<open>
  Claim C4. A call of \<^verbatim>\<open>playNote\<close> sets harmony timers only when the random draw
  exceeds 0.6 and the recent-note queue, after the played note has been added and the old
  entries dropped, holds at least two notes. With fewer than two notes queued,
  \<^verbatim>\<open>generateHarmony\<close> sets no timer, throws nothing and leaves the state unchanged.
\<close>

theorem harmony_gate:
  "(timers (fst (playNote st env key duration velocity)) \<noteq> [] \<longrightarrow>
      random_harmony env > 0.6
      \<and> 2 \<le> length (notesInQueue (snd (playNote st env key duration velocity))))
   \<and> (length (notesInQueue st) < 2 \<longrightarrow> generateHarmony st = (None, [], st))"
  using playNote_timers [of st env key duration velocity] generateHarmony_short_queue [of st]
  by auto

theorem harmony_gate_witness:
  "timers (fst (playNote playing sample_env (of_char CHR ''a'') 0.5 0.7)) =
     [SetTimeout 50 ''E3'' 0.4 0.4, SetTimeout 100 ''A3'' 0.3 0.3]
   \<and> random_harmony sample_env > 0.6
   \<and> 2 \<le> length (notesInQueue (snd (playNote playing sample_env (of_char CHR ''a'') 0.5 0.7)))
   \<and> length (notesInQueue initial) < 2
   \<and> generateHarmony initial = (None, [], initial)"
proof -
  have fired: "timers (fst (playNote playing sample_env (of_char CHR ''a'') 0.5 0.7)) \<noteq> []"
    using sample_run by simp
  have short: "length (notesInQueue initial) < 2"
    by (simp add: initial_def)
  from harmony_gate [of playing sample_env "of_char CHR ''a''" "0.5" "0.7"] fired
  have "random_harmony sample_env > 0.6
      \<and> 2 \<le> length (notesInQueue (snd (playNote playing sample_env (of_char CHR ''a'') 0.5 0.7)))"
    by blast
  moreover from harmony_gate [of initial sample_env "of_char CHR ''a''" "0.5" "0.7"] short
  have "generateHarmony initial = (None, [], initial)"
    by blast
  ultimately show ?thesis
    using short sample_run by simp
qed

section \<open>Chord resolution\<close>

text \<open>
  Claim C5. A chord symbol whose first character is the \<open>i\<close>-th entry of the twelve-tone
  chromatic table resolves to exactly three notes at octave 2: the root, the entry 3
  places on (modulo 12) if the symbol contains the minor marker \<open>m\<close> and 4 places on
  otherwise, and the entry 7 places on (modulo 12). A chord symbol whose first character is
  not in the table resolves to exactly one note, that character at octave 2.
\<close>

theorem getChordNotes_triad:
  fixes chordName :: string and chromatic :: "string list"
  defines "chromatic \<equiv>
    [''C'', ''C#'', ''D'', ''D#'', ''E'', ''F'', ''F#'', ''G'', ''G#'', ''A'', ''A#'', ''B'']"
  shows "(i < 12 \<and> take 1 chordName = chromatic ! i \<longrightarrow>
            getChordNotes chordName =
              [take 1 chordName @ ''2'',
               chromatic ! ((i + (if CHR ''m'' \<in> set chordName then 3 else 4)) mod 12) @ ''2'',
               chromatic ! ((i + 7) mod 12) @ ''2''])
       \<and> (take 1 chordName \<notin> set chromatic \<longrightarrow>
            getChordNotes chordName = [take 1 chordName @ ''2''])"
proof (intro conjI impI)
  have table: "the (map_of SCALES ''chromatic'') = chromatic"
    unfolding chromatic_def by (rule chromatic_table)
  have dist: "distinct chromatic" and len: "length chromatic = 12"
    by (simp_all add: chromatic_def)
  {
    assume a: "i < 12 \<and> take 1 chordName = chromatic ! i"
    with indexOf_nth [OF dist, of i] len
    have "indexOf chromatic (take 1 chordName) = Some i"
      by simp
    then show "getChordNotes chordName =
        [take 1 chordName @ ''2'',
         chromatic ! ((i + (if CHR ''m'' \<in> set chordName then 3 else 4)) mod 12) @ ''2'',
         chromatic ! ((i + 7) mod 12) @ ''2'']"
      unfolding getChordNotes_cases table by simp
  }
  {
    assume "take 1 chordName \<notin> set chromatic"
    then have "indexOf chromatic (take 1 chordName) = None"
      by (simp add: indexOf_None)
    then show "getChordNotes chordName = [take 1 chordName @ ''2'']"
      unfolding getChordNotes_cases table by simp
  }
qed

theorem getChordNotes_triad_witness:
  "getChordNotes ''Am'' = [''A2'', ''C2'', ''E2''] \<and> getChordNotes ''G'' = [''G2'', ''B2'', ''D2'']
   \<and> getChordNotes ''Hm'' = [''H2'']"
proof (intro conjI)
  show "getChordNotes ''Am'' = [''A2'', ''C2'', ''E2'']"
    using getChordNotes_triad [of 9 "''Am''"] by simp
  show "getChordNotes ''G'' = [''G2'', ''B2'', ''D2'']"
    using getChordNotes_triad [of 7 "''G''"] by simp
  show "getChordNotes ''Hm'' = [''H2'']"
    using getChordNotes_triad [of _ "''Hm''"] by simp
qed

section \<open>The background chord progression\<close>

text \<open>
  Claim C6. When the chord step of a note-play event triggers (the synth is present and the
  random draw is at most 0.2, which has probability 0.2), the progression cursor advances
  by exactly one position modulo the length of the active progression, and the chord at the
  old cursor position is requested with velocity 0.1 for 1.5 seconds. This holds for
  \<^verbatim>\<open>progressChordSequence\<close> itself and, when the current scale is one of the registry,
  for the whole call of \<^verbatim>\<open>playNote\<close>, whose last request is the chord. The active
  progression and the cursor are in range, as they are in every state the module reaches.
\<close>

theorem chord_advance:
  assumes "synth st \<noteq> None" and "random_chord env \<le> 0.2"
    and "currentProgression st < length CHORD_PROGRESSIONS"
    and "progressionIndex st < length (CHORD_PROGRESSIONS ! currentProgression st)"
  shows "progressChordSequence st (random_chord env) (now_chord env) =
    (None,
     [TriggerAttackRelease
        (getChordNotes (CHORD_PROGRESSIONS ! currentProgression st ! progressionIndex st))
        1.5 (now_chord env) 0.1],
     st\<lparr>progressionIndex :=
          (progressionIndex st + 1) mod length (CHORD_PROGRESSIONS ! currentProgression st)\<rparr>)
   \<and> (currentScale st \<in> set (map fst SCALES) \<longrightarrow>
        progressionIndex (snd (playNote st env key duration velocity)) =
          (progressionIndex st + 1) mod length (CHORD_PROGRESSIONS ! currentProgression st)
        \<and> currentProgression (snd (playNote st env key duration velocity)) = currentProgression st
        \<and> last (requests (fst (playNote st env key duration velocity))) =
            TriggerAttackRelease
              (getChordNotes (CHORD_PROGRESSIONS ! currentProgression st ! progressionIndex st))
              1.5 (now_chord env) 0.1)"
proof (intro conjI impI)
  from assms(1) obtain g where g: "synth st = Some g" by auto
  show "progressChordSequence st (random_chord env) (now_chord env) =
    (None,
     [TriggerAttackRelease
        (getChordNotes (CHORD_PROGRESSIONS ! currentProgression st ! progressionIndex st))
        1.5 (now_chord env) 0.1],
     st\<lparr>progressionIndex :=
          (progressionIndex st + 1) mod length (CHORD_PROGRESSIONS ! currentProgression st)\<rparr>)"
    by (rule progressChordSequence_fires [OF g assms(2-4)])
  assume "currentScale st \<in> set (map fst SCALES)"
  then obtain scale where scale: "map_of SCALES (currentScale st) = Some scale"
    using registry_name_iff by blast
  from keyToNote_registry [OF scale] obtain n where n: "keyToNote st key = Inr n"
    by blast
  define st3 where "st3 = st\<lparr>lastNotesPlayed :=
        drop (length (lastNotesPlayed st @ [n]) - 8) (lastNotesPlayed st @ [n]),
      notesInQueue := filter (\<lambda>e. now_filter env - time_of e < 2)
        (notesInQueue st @ [\<lparr>note_of = n, time_of = now_push env\<rparr>])\<rparr>"
  have scale3: "map_of SCALES (currentScale st3) = Some scale"
    using scale by (simp add: st3_def)
  have g3: "synth st3 = Some g"
    using g by (simp add: st3_def)
  have p3: "currentProgression st3 = currentProgression st" "progressionIndex st3 = progressionIndex st"
    by (simp_all add: st3_def)
  have run: "playNote st env key duration velocity =
      (\<lparr>requests = TriggerAttackRelease [n] duration (now_play env) velocity
           # fst (snd (progressChordSequence st3 (random_chord env) (now_chord env))),
        timers = fst (snd (if 1 < length (notesInQueue st3) \<and> random_harmony env > 0.6
                           then generateHarmony st3 else (None, [], st3))),
        initAttempted = False,
        caught = fst (progressChordSequence st3 (random_chord env) (now_chord env))\<rparr>,
       snd (snd (progressChordSequence st3 (random_chord env) (now_chord env))))"
    using g n scale
    by (simp add: playNote_def Let_def case_prod_beta generateHarmony_state
        generateHarmony_no_error [where scale = scale] st3_def)
  have fires: "progressChordSequence st3 (random_chord env) (now_chord env) =
    (None,
     [TriggerAttackRelease
        (getChordNotes (CHORD_PROGRESSIONS ! currentProgression st ! progressionIndex st))
        1.5 (now_chord env) 0.1],
     st3\<lparr>progressionIndex :=
          (progressionIndex st + 1) mod length (CHORD_PROGRESSIONS ! currentProgression st)\<rparr>)"
    using progressChordSequence_fires [OF g3 assms(2), of "now_chord env"] assms(3,4)
    by (simp add: p3)
  show "progressionIndex (snd (playNote st env key duration velocity)) =
          (progressionIndex st + 1) mod length (CHORD_PROGRESSIONS ! currentProgression st)"
    by (simp add: run fires)
  show "currentProgression (snd (playNote st env key duration velocity)) = currentProgression st"
    by (simp add: run fires p3)
  show "last (requests (fst (playNote st env key duration velocity))) =
            TriggerAttackRelease
              (getChordNotes (CHORD_PROGRESSIONS ! currentProgression st ! progressionIndex st))
              1.5 (now_chord env) 0.1"
    by (simp add: run fires)
qed

theorem chord_advance_witness:
  "synth playing \<noteq> None \<and> random_chord sample_env \<le> 0.2
   \<and> currentProgression playing < length CHORD_PROGRESSIONS
   \<and> progressionIndex playing < length (CHORD_PROGRESSIONS ! currentProgression playing)
   \<and> currentScale playing \<in> set (map fst SCALES)
   \<and> progressChordSequence playing (random_chord sample_env) (now_chord sample_env) =
       (None, [TriggerAttackRelease [''C2'', ''E2'', ''G2''] 1.5 11.6 0.1],
        playing\<lparr>progressionIndex := 1\<rparr>)
   \<and> progressionIndex (snd (playNote playing sample_env (of_char CHR ''a'') 0.5 0.7)) = 1
   \<and> last (requests (fst (playNote playing sample_env (of_char CHR ''a'') 0.5 0.7))) =
       TriggerAttackRelease [''C2'', ''E2'', ''G2''] 1.5 11.6 0.1"
proof -
  have h: "synth playing \<noteq> None" "random_chord sample_env \<le> 0.2"
    "currentProgression playing < length CHORD_PROGRESSIONS"
    "progressionIndex playing < length (CHORD_PROGRESSIONS ! currentProgression playing)"
    by (simp_all add: playing_def ready_def initial_def sample_env_def CHORD_PROGRESSIONS_def)
  have s: "currentScale playing \<in> set (map fst SCALES)"
    by (simp add: playing_def ready_def initial_def SCALES_def)
  have c: "getChordNotes (CHORD_PROGRESSIONS ! currentProgression playing
             ! progressionIndex playing) = [''C2'', ''E2'', ''G2'']"
    by (simp add: playing_def ready_def initial_def CHORD_PROGRESSIONS_def
        getChordNotes_cases chromatic_table)
  have v: "progressionIndex playing = 0" "currentProgression playing = 0"
    "now_chord sample_env = 11.6" "length (CHORD_PROGRESSIONS ! 0) = 4"
    by (simp_all add: playing_def ready_def initial_def sample_env_def CHORD_PROGRESSIONS_def)
  show ?thesis
    using h s chord_advance [OF h, of "of_char CHR ''a''" "0.5" "0.7"] c
    by (simp add: v)
qed

section \<open>The recent-note queue\<close>

text \<open>
  Claim C7. After every call of \<^verbatim>\<open>playNote\<close> that gets as far as recording its note (the
  synth is present and the lookup of the current scale yields a value), every entry of the
  recent-note queue is less than 2 seconds older than the entry just inserted. The clock
  does not run backwards between the reading stored with the note and the reading the queue
  is pruned against. If moreover no entry queued before was stamped later than the new one,
  every timestamp is within 2 seconds of it.
\<close>

theorem playNote_prunes_queue:
  assumes "synth st \<noteq> None" and "SCALES_get (currentScale st) \<noteq> None"
    and "now_push env \<le> now_filter env"
  shows "(\<forall>e \<in> set (notesInQueue (snd (playNote st env key duration velocity))).
            now_push env - time_of e < 2)
    \<and> ((\<forall>e \<in> set (notesInQueue st). time_of e \<le> now_push env) \<longrightarrow>
        (\<forall>e \<in> set (notesInQueue (snd (playNote st env key duration velocity))).
            \<bar>now_push env - time_of e\<bar> < 2))"
proof -
  from assms(1) obtain g where g: "synth st = Some g" by auto
  from keyToNote_total [OF assms(2)] obtain n where n: "keyToNote st key = Inr n" by blast
  show ?thesis
    unfolding playNote_queue [OF g n] using assms(3) by auto
qed

theorem playNote_prunes_queue_witness:
  "synth playing \<noteq> None \<and> SCALES_get (currentScale playing) \<noteq> None
   \<and> now_push sample_env \<le> now_filter sample_env
   \<and> notesInQueue playing = [\<lparr>note_of = ''E3'', time_of = 9.5\<rparr>, \<lparr>note_of = ''G4'', time_of = 10\<rparr>]
   \<and> notesInQueue (snd (playNote playing sample_env (of_char CHR ''a'') 0.5 0.7)) =
       [\<lparr>note_of = ''G4'', time_of = 10\<rparr>, \<lparr>note_of = ''C3'', time_of = 11.6\<rparr>]
   \<and> list_all (\<lambda>e. now_push sample_env - time_of e < 2)
        (notesInQueue (snd (playNote playing sample_env (of_char CHR ''a'') 0.5 0.7)))"
proof -
  have h: "synth playing \<noteq> None" "SCALES_get (currentScale playing) \<noteq> None"
    "now_push sample_env \<le> now_filter sample_env"
    by (simp_all add: playing_def ready_def initial_def sample_env_def SCALES_get_def SCALES_def)
  have q: "notesInQueue playing =
      [\<lparr>note_of = ''E3'', time_of = 9.5\<rparr>, \<lparr>note_of = ''G4'', time_of = 10\<rparr>]"
    by (simp add: playing_def)
  from playNote_prunes_queue [OF h, of "of_char CHR ''a''" "0.5" "0.7"]
  have "list_all (\<lambda>e. now_push sample_env - time_of e < 2)
        (notesInQueue (snd (playNote playing sample_env (of_char CHR ''a'') 0.5 0.7)))"
    by (simp add: list_all_iff)
  with h q sample_run show ?thesis
    by simp
qed

section \<open>The uninitialized engine\<close>

text \<open>
  Claim C8. When \<^verbatim>\<open>playNote\<close> is called while the synth is absent, it calls
  \<^verbatim>\<open>initAudioEngine\<close>, sends no play request, sets no timer and leaves the whole module
  state, with the note history, the recent-note queue and the progression state, unchanged.
  The initialization it started sends at most its own silent note and does not touch the
  musical context either: the dropped note is not played later.
\<close>

theorem playNote_uninitialized:
  assumes "synth st = None"
  shows "playNote st env key duration velocity =
           (\<lparr>requests = [], timers = [], initAttempted = True, caught = None\<rparr>, st)
         \<and> (\<forall>volume started now.
              fst (initAudioEngine st volume started now) \<in>
                {[], [TriggerAttackRelease [''C4''] 0.01 now 0.01]}
              \<and> lastNotesPlayed (snd (initAudioEngine st volume started now)) = lastNotesPlayed st
              \<and> notesInQueue (snd (initAudioEngine st volume started now)) = notesInQueue st
              \<and> currentScale (snd (initAudioEngine st volume started now)) = currentScale st
              \<and> currentProgression (snd (initAudioEngine st volume started now)) = currentProgression st
              \<and> progressionIndex (snd (initAudioEngine st volume started now)) = progressionIndex st)"
  using assms by (simp add: playNote_def initAudioEngine_def)

theorem playNote_uninitialized_witness:
  "synth initial = None
   \<and> playNote initial sample_env (of_char CHR ''a'') 0.5 0.7 =
       (\<lparr>requests = [], timers = [], initAttempted = True, caught = None\<rparr>, initial)
   \<and> fst (initAudioEngine initial 0.5 True 12) = [TriggerAttackRelease [''C4''] 0.01 12 0.01]
   \<and> lastNotesPlayed (snd (initAudioEngine initial 0.5 True 12)) = []
   \<and> notesInQueue (snd (initAudioEngine initial 0.5 True 12)) = []"
proof -
  have h: "synth initial = None"
    by (simp add: initial_def)
  have i: "lastNotesPlayed initial = []" "notesInQueue initial = []"
    by (simp_all add: initial_def)
  show ?thesis
    using h playNote_uninitialized [OF h, of sample_env "of_char CHR ''a''" "0.5" "0.7"]
      ready_initAudioEngine [of 12]
    by (simp add: i ready_def)
qed

section \<open>Settings\<close>

text \<open>
  Claim C9 says that \<^verbatim>\<open>updateMusicSettings\<close>, with the engine initialized, commits the
  requested scale name if and only if it is one of the registry. The code tests
  \<^verbatim>\<open>SCALES[settings.scale]\<close> for truthiness, and that read also finds the properties
  every object inherits. With the engine initialized and the scale \<open>pentatonic\<close>, the
  request for the scale \<open>constructor\<close>, which is not in the registry, is committed; the
  next letter key then maps to a note without pitch class, and harmony generation throws.
\<close>

theorem updateMusicSettings_inherited_name:
  "synth ready \<noteq> None \<and> reverb ready \<noteq> None \<and> delay ready \<noteq> None
   \<and> currentScale ready = ''pentatonic''
   \<and> ''constructor'' \<notin> set (map fst SCALES)
   \<and> currentScale (updateMusicSettings ready
        \<lparr>settings_volume = None, settings_scale = Some ''constructor'',
         settings_reverb = None, settings_delay = None\<rparr> 0 0) = ''constructor''
   \<and> keyToNote (ready\<lparr>currentScale := ''constructor''\<rparr>) (of_char CHR ''b'') = Inr ''undefined4''
   \<and> fst (generateHarmony (two_queued\<lparr>currentScale := ''constructor''\<rparr>)) = Some TypeError"
  by (simp add: updateMusicSettings_def keyToNote_def generateHarmony_def two_queued_def
      ready_def initial_def SCALES_get_def SCALES_def Object_prototype_def isLetter_def
      upperCode_def toString_nat_digit digit_char_simps Let_def)

text \<open>
  For every name that is not a property of \<^verbatim>\<open>Object.prototype\<close> the test does what the
  claim says: the name is committed if it is in the registry and ignored otherwise.
\<close>

lemma updateMusicSettings_scale:
  assumes "synth st \<noteq> None" "reverb st \<noteq> None" "delay st \<noteq> None"
    and "settings_scale s = Some name" and "name \<notin> set (map fst Object_prototype)"
  shows "currentScale (updateMusicSettings st s r1 r2) =
           (if name \<in> set (map fst SCALES) then name else currentScale st)"
proof -
  from assms(1-3) obtain g w1 w2
    where e: "synth st = Some g" "reverb st = Some w1" "delay st = Some w2"
    by auto
  have "(SCALES_get name = None) = (name \<notin> set (map fst SCALES))"
    using SCALES_get_truthy [OF assms(5)] by auto
  with e assms(4) show ?thesis
    by (simp add: updateMusicSettings_def Let_def split: option.splits)
qed

text \<open>
  Claim C10. If the synth, the reverb or the delay is absent, \<^verbatim>\<open>updateMusicSettings\<close>
  changes nothing, whatever it is given: no volume or effect level is applied, and the
  current scale, the active progression and the progression cursor stay as they are, also
  for a scale name of the registry and whatever the random draws are.
\<close>

theorem updateMusicSettings_uninitialized:
  assumes "synth st = None \<or> reverb st = None \<or> delay st = None"
  shows "updateMusicSettings st s r1 r2 = st"
  using assms by (simp add: updateMusicSettings_def)

theorem updateMusicSettings_uninitialized_witness:
  "updateMusicSettings initial
     \<lparr>settings_volume = Some 1, settings_scale = Some ''major'',
      settings_reverb = Some 0.7, settings_delay = Some 0.4\<rparr> 0.9 0.5 = initial
   \<and> updateMusicSettings (initial\<lparr>synth := Some 0.5\<rparr>)
     \<lparr>settings_volume = Some 1, settings_scale = Some ''major'',
      settings_reverb = Some 0.7, settings_delay = Some 0.4\<rparr> 0.9 0.5 = initial\<lparr>synth := Some 0.5\<rparr>"
proof -
  have h1: "synth initial = None \<or> reverb initial = None \<or> delay initial = None"
    by (simp add: initial_def)
  have h2: "synth (initial\<lparr>synth := Some 0.5\<rparr>) = None
      \<or> reverb (initial\<lparr>synth := Some 0.5\<rparr>) = None \<or> delay (initial\<lparr>synth := Some 0.5\<rparr>) = None"
    by (simp add: initial_def)
  show ?thesis
    using updateMusicSettings_uninitialized [OF h1] updateMusicSettings_uninitialized [OF h2]
    by simp
qed

end
